theory Spec2Isabelle
  imports Complex_Main
begin

section \<open>Strings and characters\<close>

text \<open>
  Strings of the program are modelled as lists of 8-bit characters.  The ASCII
  letters are the only characters of that range with a case variant that an
  ASCII pattern letter can match.
\<close>

definition ascii_upper :: string where
  "ascii_upper = ''ABCDEFGHIJKLMNOPQRSTUVWXYZ''"

definition ascii_lower :: string where
  "ascii_lower = ''abcdefghijklmnopqrstuvwxyz''"

definition digits :: string where
  "digits = ''0123456789''"

definition lower_char :: "char \<Rightarrow> char" where
  "lower_char c = (case map_of (zip ascii_upper ascii_lower) c of Some l \<Rightarrow> l | None \<Rightarrow> c)"

definition lower :: "string \<Rightarrow> string" where
  "lower s = map lower_char s"

section \<open>Regular expressions as used by the program\<close>

text \<open>
  The patterns of the program are sequences of: a literal, an optional literal
  (\<open>s?\<close>, \<open>(?:www\.)?\<close>), a capture group holding a greedy repetition of a
  character class (\<open>([^/]+)\<close>, \<open>(.+)\<close>, \<open>(.*)\<close>), and the anchor \<open>$\<close>.
  The matcher is a backtracking one, as Python's \<open>re\<close>: every item returns its
  alternatives in the order in which the engine tries them, and the match is
  the first alternative that reaches the end of the pattern.  A state is the
  list of groups captured so far and the text that is left.
\<close>

datatype re_item =
    Lit string
  | Opt string
  | Group "char \<Rightarrow> bool" nat
  | Eos

type_synonym re_state = "string list \<times> string"

fun lit :: "bool \<Rightarrow> string \<Rightarrow> string \<Rightarrow> string option" where
  "lit ic [] s = Some s"
| "lit ic (p # ps) [] = None"
| "lit ic (p # ps) (c # cs) =
     (if (if ic then lower_char p = lower_char c else p = c) then lit ic ps cs else None)"

fun m_item :: "bool \<Rightarrow> re_item \<Rightarrow> re_state \<Rightarrow> re_state list" where
  "m_item ic (Lit p) (g, s) = (case lit ic p s of Some r \<Rightarrow> [(g, r)] | None \<Rightarrow> [])"
| "m_item ic (Opt p) (g, s) = (case lit ic p s of Some r \<Rightarrow> [(g, r)] | None \<Rightarrow> []) @ [(g, s)]"
| "m_item ic (Group P k) (g, s) =
     map (\<lambda>n. (g @ [take n s], drop n s)) (rev [k ..< Suc (length (takeWhile P s))])"
| "m_item ic Eos (g, s) = (if s = [] \<or> s = [CHR 0x0A] then [(g, s)] else [])"

fun m_seq :: "bool \<Rightarrow> re_item list \<Rightarrow> re_state \<Rightarrow> re_state list" where
  "m_seq ic [] st = [st]"
| "m_seq ic (r # rs) st = concat (map (m_seq ic rs) (m_item ic r st))"

definition re_match :: "bool \<Rightarrow> re_item list \<Rightarrow> string \<Rightarrow> string list option" where
  "re_match ic re s = (case m_seq ic re ([], s) of [] \<Rightarrow> None | (g, r) # alts \<Rightarrow> Some g)"

definition not_slash :: "char \<Rightarrow> bool" where
  "not_slash c = (c \<noteq> CHR ''/'')"

definition dot :: "char \<Rightarrow> bool" where
  "dot c = (c \<noteq> CHR 0x0A)"

section \<open>Library functions the program calls\<close>

text \<open>What the program does with an exception nobody catches is a 500 response.\<close>

datatype exc = ValueError string | KeyError string | OtherError string

subsection \<open>\<open>str.strip\<close>, \<open>urllib.parse.unquote\<close>, \<open>int\<close>\<close>

definition py_isspace :: "char \<Rightarrow> bool" where
  "py_isspace c = (c \<in> set [CHR 0x09, CHR 0x0A, CHR 0x0B, CHR 0x0C, CHR 0x0D, CHR 0x1C,
                              CHR 0x1D, CHR 0x1E, CHR 0x1F, CHR 0x20, CHR 0x85, CHR 0xA0])"

definition strip :: "string \<Rightarrow> string" where
  "strip s = rev (dropWhile py_isspace (rev (dropWhile py_isspace s)))"

definition hex_val :: "char \<Rightarrow> nat option" where
  "hex_val c = map_of (zip ''0123456789abcdef'' [0, 1, 2, 3, 4, 5, 6, 7, 8, 9, 10, 11, 12, 13, 14, 15])
                 (lower_char c)"

text \<open>
  \<open>unquote\<close> replaces every \<open>%XX\<close> with two hexadecimal digits by the byte they
  denote and leaves any other \<open>%\<close> in place.  Python then decodes the bytes as
  UTF-8; the model keeps the byte as a character, which is the same for every
  escape below \<open>%80\<close>.
\<close>

fun unquote :: "string \<Rightarrow> string" where
  "unquote (c # a # b # s) =
     (if c = CHR ''%'' then
        (case (hex_val a, hex_val b) of
           (Some h, Some l) \<Rightarrow> char_of (16 * h + l) # unquote s
         | _ \<Rightarrow> c # unquote (a # b # s))
      else c # unquote (a # b # s))"
| "unquote s = s"

definition digit_val :: "char \<Rightarrow> nat option" where
  "digit_val c = map_of (zip digits [0, 1, 2, 3, 4, 5, 6, 7, 8, 9]) c"

fun underscores_ok :: "string \<Rightarrow> bool" where
  "underscores_ok [] = False"
| "underscores_ok [c] = (digit_val c \<noteq> None)"
| "underscores_ok (c # d # s) =
     (if digit_val c \<noteq> None then underscores_ok (d # s)
      else c = CHR ''_'' \<and> digit_val d \<noteq> None \<and> underscores_ok (d # s))"

fun decimal :: "nat \<Rightarrow> string \<Rightarrow> nat" where
  "decimal acc [] = acc"
| "decimal acc (c # s) = (case digit_val c of Some d \<Rightarrow> decimal (10 * acc + d) s | None \<Rightarrow> decimal acc s)"

definition max_str_digits :: nat where
  "max_str_digits = 4300"

text \<open>
  \<open>int(s)\<close> in base ten: surrounding white space, an optional sign, then digits
  that single underscores may separate; no more than \<open>max_str_digits\<close> digits.
  \<open>None\<close> is the \<open>ValueError\<close>.
\<close>

definition py_int :: "string \<Rightarrow> int option" where
  "py_int s =
     (let t = strip s;
          neg = (t \<noteq> [] \<and> hd t = CHR ''-'');
          body = (if t \<noteq> [] \<and> (hd t = CHR ''-'' \<or> hd t = CHR ''+'') then tl t else t)
      in if body \<noteq> [] \<and> digit_val (hd body) \<noteq> None \<and> underscores_ok body
            \<and> length (filter (\<lambda>c. c \<noteq> CHR ''_'') body) \<le> max_str_digits
         then Some (if neg then - int (decimal 0 body) else int (decimal 0 body))
         else None)"

subsection \<open>\<open>urllib.parse.urlparse\<close>\<close>

definition scheme_chars :: string where
  "scheme_chars = ascii_lower @ ascii_upper @ digits @ ''+-.''"

definition c0_control_or_space :: "char \<Rightarrow> bool" where
  "c0_control_or_space c = ((of_char c :: nat) \<le> 32)"

definition unsafe_url_bytes :: string where
  "unsafe_url_bytes = [CHR 0x09, CHR 0x0D, CHR 0x0A]"

text \<open>
  The scheme of \<open>urlsplit\<close>: leading control characters and spaces are dropped,
  tabs and line breaks removed everywhere; the text before the first colon is
  the scheme when it starts with a letter and holds scheme characters only, and
  it is returned in lower case.  The second component is the text after the
  scheme.
\<close>

definition split_scheme :: "string \<Rightarrow> string \<times> string" where
  "split_scheme url0 =
     (let url = filter (\<lambda>c. c \<notin> set unsafe_url_bytes) (dropWhile c0_control_or_space url0);
          pre = takeWhile (\<lambda>c. c \<noteq> CHR '':'') url
      in if length pre < length url \<and> pre \<noteq> []
            \<and> hd url \<in> set (ascii_lower @ ascii_upper)
            \<and> (\<forall>c \<in> set pre. c \<in> set scheme_chars)
         then (lower pre, drop (Suc (length pre)) url)
         else ([], url))"

definition netloc_of :: "string \<Rightarrow> string" where
  "netloc_of rest = takeWhile (\<lambda>c. c \<notin> set ''/?#'') (drop 2 rest)"

text \<open>
  \<open>urlparse(url).scheme\<close>.  The parse raises \<open>ValueError\<close> when the authority
  has one square bracket without the other.
\<close>

definition urlparse_scheme :: "string \<Rightarrow> exc + string" where
  "urlparse_scheme url =
     (let (scheme, rest) = split_scheme url in
      if take 2 rest = ''//''
         \<and> ((CHR ''['' \<in> set (netloc_of rest)) \<noteq> (CHR '']'' \<in> set (netloc_of rest)))
      then Inl (ValueError ''Invalid IPv6 URL'')
      else Inr scheme)"

subsection \<open>Header collections\<close>

type_synonym headers = "(string \<times> string) list"

fun join :: "string \<Rightarrow> string list \<Rightarrow> string" where
  "join sep [] = []"
| "join sep [x] = x"
| "join sep (x # y # ys) = x @ sep @ join sep (y # ys)"

text \<open>
  \<open>httpx.Headers.get\<close>: the lookup ignores case, and several header lines of the
  same name are joined with a comma.
\<close>

definition httpx_get :: "headers \<Rightarrow> string \<Rightarrow> string option" where
  "httpx_get hs key =
     (let items = map snd (filter (\<lambda>(k, v). lower k = lower key) hs)
      in if items = [] then None else Some (join '', '' items))"

text \<open>
  The headers of the inbound request: the server hands the names over in lower
  case, and a lookup returns the first line of that name.
\<close>

definition request_header :: "headers \<Rightarrow> string \<Rightarrow> string option" where
  "request_header hs key = map_of hs (lower key)"

subsection \<open>\<open>cachetools.TTLCache\<close>\<close>

type_synonym cache_value = "string \<times> headers \<times> int"

text \<open>
  The entries are kept from the least to the most recently used, each with the
  time at which it expires.  Every entry has size one.
\<close>

record ttl_cache =
  maxsize :: int
  ttl :: int
  entries :: "(string \<times> cache_value \<times> real) list"

text \<open>
  \<open>key in cache\<close> reads the clock and changes nothing.  \<open>cache[key]\<close> marks the
  entry as the most recently used one and raises \<open>KeyError\<close> when the key is
  missing or the entry has expired.
\<close>

definition cache_contains :: "ttl_cache \<Rightarrow> real \<Rightarrow> string \<Rightarrow> bool" where
  "cache_contains c now key =
     (case map_of (entries c) key of None \<Rightarrow> False | Some (v, expires) \<Rightarrow> now < expires)"

definition move_to_end :: "string \<Rightarrow> (string \<times> 'a) list \<Rightarrow> (string \<times> 'a) list" where
  "move_to_end key es =
     (case map_of es key of
        None \<Rightarrow> es
      | Some x \<Rightarrow> filter (\<lambda>e. fst e \<noteq> key) es @ [(key, x)])"

definition cache_getitem :: "ttl_cache \<Rightarrow> real \<Rightarrow> string \<Rightarrow> (exc + cache_value) \<times> ttl_cache" where
  "cache_getitem c now key =
     (case map_of (entries c) key of
        None \<Rightarrow> (Inl (KeyError key), c)
      | Some (v, expires) \<Rightarrow>
          (if now < expires then Inr v else Inl (KeyError key),
           c\<lparr>entries := move_to_end key (entries c)\<rparr>))"

text \<open>
  The library drops entries from the old end of its list for as long as they
  have expired.  The clock never goes back and every entry lives equally long,
  so these are all the expired entries.
\<close>

definition expire :: "real \<Rightarrow> (string \<times> cache_value \<times> real) list \<Rightarrow> (string \<times> cache_value \<times> real) list" where
  "expire now es = filter (\<lambda>(k, v, expires). now < expires) es"

fun evict :: "int \<Rightarrow> (string \<times> 'a) list \<Rightarrow> (string \<times> 'a) list" where
  "evict m [] = []"
| "evict m (e # es) = (if int (length (e # es)) + 1 > m then evict m es else e # es)"

text \<open>
  \<open>cache[key] = value\<close> at time \<open>now\<close>: expired entries are removed, a value
  larger than the cache is refused, the least recently used entries make room
  for a new key, and the entry is written with its expiry time.
\<close>

definition cache_setitem :: "ttl_cache \<Rightarrow> real \<Rightarrow> string \<Rightarrow> cache_value \<Rightarrow> exc option \<times> ttl_cache" where
  "cache_setitem c now key value =
     (let es = expire now (entries c) in
      if 1 > maxsize c then (Some (ValueError ''value too large''), c\<lparr>entries := es\<rparr>)
      else
        let es1 = (if map_of es key = None then evict (maxsize c) es else es)
        in (None, c\<lparr>entries := filter (\<lambda>e. fst e \<noteq> key) es1 @ [(key, value, now + real_of_int (ttl c))]\<rparr>))"

subsection \<open>The HTTP client\<close>

record response =
  status_code :: int
  headers :: headers
  content :: string

text \<open>
  \<open>client.get\<close> returns a response whose body has been read, or raises: an
  \<open>httpx.RequestError\<close> with its text, or some other exception.
\<close>

datatype fetch_result = Returns response | RequestError string | Raises exc

function chunks :: "nat \<Rightarrow> 'a list \<Rightarrow> 'a list list" where
  "chunks n xs = (if n = 0 \<or> xs = [] then [] else take n xs # chunks n (drop n xs))"
  by pat_completeness auto
termination
  by (relation "measure (\<lambda>(n, xs). length xs)") auto

section \<open>Configuration and state\<close>

record config =
  GHPROXY_CACHE_TTL :: int
  GHPROXY_CACHE_MAXSIZE :: int
  GHPROXY_USER_AGENT :: "string option"

definition MAX_STREAM_CHUNK :: nat where
  "MAX_STREAM_CHUNK = 64 * 1024"

definition cache_init :: "config \<Rightarrow> ttl_cache option" where
  "cache_init cfg =
     (if GHPROXY_CACHE_TTL cfg > 0
      then Some \<lparr>maxsize = GHPROXY_CACHE_MAXSIZE cfg, ttl = GHPROXY_CACHE_TTL cfg, entries = []\<rparr>
      else None)"

section \<open>Helper functions of the proxy\<close>

definition gh_blob_regex :: "re_item list" where
  "gh_blob_regex =
     [Lit ''http'', Opt ''s'', Lit ''://'', Opt ''www.'', Lit ''github.com/'',
      Group not_slash 1, Lit ''/'', Group not_slash 1, Lit ''/blob/'', Group dot 1, Eos]"

definition gh_tree_regex :: "re_item list" where
  "gh_tree_regex =
     [Lit ''http'', Opt ''s'', Lit ''://'', Opt ''www.'', Lit ''github.com/'',
      Group not_slash 1, Lit ''/'', Group not_slash 1, Lit ''/raw/'', Group dot 1, Eos]"

definition raw_url :: "string list \<Rightarrow> string" where
  "raw_url g = ''https://raw.githubusercontent.com/'' @ g ! 0 @ ''/'' @ g ! 1 @ ''/'' @ g ! 2"

definition github_to_raw :: "string \<Rightarrow> string" where
  "github_to_raw url =
     (case re_match True gh_blob_regex url of
        Some g \<Rightarrow> raw_url g
      | None \<Rightarrow>
          (case re_match True gh_tree_regex url of
             Some g \<Rightarrow> raw_url g
           | None \<Rightarrow> url))"

definition normalize_url_param :: "string \<Rightarrow> string" where
  "normalize_url_param raw =
     (let u = unquote (strip raw)
      in if take 8 u = ''/http://'' \<or> take 9 u = ''/https://'' then drop 1 u else u)"

definition allowed_scheme :: "string \<Rightarrow> exc + bool" where
  "allowed_scheme url =
     (case urlparse_scheme url of
        Inl e \<Rightarrow> Inl e
      | Inr scheme \<Rightarrow> Inr (scheme \<in> set [''http'', ''https'']))"

definition whitelist :: "string list" where
  "whitelist = [''content-type'', ''content-length'', ''accept-ranges'', ''etag'',
                ''last-modified'', ''cache-control'']"

fun pick :: "headers \<Rightarrow> string list \<Rightarrow> headers" where
  "pick hs [] = []"
| "pick hs (k # ks) =
     (case httpx_get hs k of
        Some v \<Rightarrow> (if v \<noteq> [] then (k, v) # pick hs ks else pick hs ks)
      | None \<Rightarrow> pick hs ks)"

definition pick_response_headers :: "response \<Rightarrow> headers" where
  "pick_response_headers resp = pick (headers resp) whitelist"

definition stream_response :: "response \<Rightarrow> string list" where
  "stream_response resp = chunks MAX_STREAM_CHUNK (content resp)"

section \<open>The proxy\<close>

datatype proxy_result =
    Response string int headers
  | StreamingResponse "string list" int headers
  | PlainTextResponse string
  | HTTPException int string
  | Unhandled exc
  | FrameworkPage string

text \<open>
  The surroundings of one call: the settings, and what the upstream answers to
  a GET of a URL with given headers.
\<close>

record env =
  cfg :: config
  client_get :: "string \<Rightarrow> headers \<Rightarrow> fetch_result"

text \<open>The clock readings of the three cache operations a call can perform.\<close>

record clock =
  t_contains :: real
  t_getitem :: real
  t_setitem :: real

definition user_agent :: "config \<Rightarrow> string" where
  "user_agent c =
     (case GHPROXY_USER_AGENT c of
        Some ua \<Rightarrow> ua
      | None \<Rightarrow> ''Mozilla/5.0 (Windows NT 10.0; Win64; x64) ghproxy/1.0'')"

definition out_headers :: "config \<Rightarrow> headers \<Rightarrow> headers" where
  "out_headers c req_headers =
     (case request_header req_headers ''range'' of
        Some r \<Rightarrow> [(''range'', r)]
      | None \<Rightarrow> [])
     @ [(''user-agent'', user_agent c)]"

text \<open>
  The declared length as the proxy reads it: only with a cache, and only from a
  non-empty \<open>content-length\<close> that \<open>int\<close> accepts.
\<close>

definition content_length :: "ttl_cache option \<Rightarrow> response \<Rightarrow> int option" where
  "content_length cache resp =
     (case httpx_get (headers resp) ''content-length'' of
        Some v \<Rightarrow> (if cache \<noteq> None \<and> v \<noteq> [] then py_int v else None)
      | None \<Rightarrow> None)"

text \<open>
  The part of \<open>do_proxy\<close> after a cache miss.  The result is the response, the
  cache afterwards and the list of outbound requests made.
\<close>

definition fetch_and_deliver ::
  "env \<Rightarrow> ttl_cache option \<Rightarrow> clock \<Rightarrow> headers \<Rightarrow> string
     \<Rightarrow> proxy_result \<times> ttl_cache option \<times> (string \<times> headers) list" where
  "fetch_and_deliver e cache clk req_headers u =
     (let cache_key = ''proxy:'' @ u;
          outh = out_headers (cfg e) req_headers
      in case client_get e u outh of
           RequestError msg \<Rightarrow>
             (HTTPException 502 (''Upstream request failed: '' @ msg), cache, [(u, outh)])
         | Raises x \<Rightarrow> (Unhandled x, cache, [(u, outh)])
         | Returns resp \<Rightarrow>
             (let picked = pick_response_headers resp;
                  status = status_code resp
              in case (cache, content_length cache resp) of
                   (Some c, Some clen) \<Rightarrow>
                     (if clen \<le> 1048576 then
                        (case cache_setitem c (t_setitem clk) cache_key (content resp, picked, status) of
                           (Some x, c') \<Rightarrow> (Unhandled x, Some c', [(u, outh)])
                         | (None, c') \<Rightarrow> (Response (content resp) status picked, Some c', [(u, outh)]))
                      else (StreamingResponse (stream_response resp) status picked, cache, [(u, outh)]))
                 | _ \<Rightarrow> (StreamingResponse (stream_response resp) status picked, cache, [(u, outh)])))"

definition do_proxy ::
  "env \<Rightarrow> ttl_cache option \<Rightarrow> clock \<Rightarrow> headers \<Rightarrow> string \<Rightarrow> bool
     \<Rightarrow> proxy_result \<times> ttl_cache option \<times> (string \<times> headers) list" where
  "do_proxy e cache clk req_headers url convert_github =
     (let u = normalize_url_param url in
      case allowed_scheme u of
        Inl x \<Rightarrow> (Unhandled x, cache, [])
      | Inr False \<Rightarrow> (HTTPException 400 ''Only http/https supported'', cache, [])
      | Inr True \<Rightarrow>
          (let u = (if convert_github then github_to_raw u else u);
               cache_key = ''proxy:'' @ u
           in case cache of
                None \<Rightarrow> fetch_and_deliver e cache clk req_headers u
              | Some c \<Rightarrow>
                  (if cache_contains c (t_contains clk) cache_key then
                     (case cache_getitem c (t_getitem clk) cache_key of
                        (Inl x, c') \<Rightarrow> (Unhandled x, Some c', [])
                      | (Inr (body, hdrs, status), c') \<Rightarrow> (Response body status hdrs, Some c', []))
                   else fetch_and_deliver e cache clk req_headers u)))"

section \<open>Routes\<close>

text \<open>
  A route is a path pattern and its handler; a pattern is compiled to a regular
  expression, \<open>{url:path}\<close> to the group \<open>(.*)\<close>, matched with case.  The
  application object registers the pages of the framework when it is created,
  then the program registers its three routes in the order of the source.  The
  router hands a request to the first route whose pattern matches the path.
\<close>

datatype handler = framework_page string | index | proxy_path | raw_path

definition routes :: "(re_item list \<times> handler) list" where
  "routes =
     [([Lit ''/openapi.json'', Eos], framework_page ''openapi''),
      ([Lit ''/docs'', Eos], framework_page ''docs''),
      ([Lit ''/docs/oauth2-redirect'', Eos], framework_page ''oauth2-redirect''),
      ([Lit ''/redoc'', Eos], framework_page ''redoc''),
      ([Lit ''/'', Eos], index),
      ([Lit ''/'', Group dot 0, Eos], proxy_path),
      ([Lit ''/raw/'', Group dot 0, Eos], raw_path)]"

fun first_match :: "(re_item list \<times> handler) list \<Rightarrow> string \<Rightarrow> (handler \<times> string list) option" where
  "first_match [] path = None"
| "first_match ((re, h) # rs) path =
     (case re_match False re path of
        Some g \<Rightarrow> Some (h, g)
      | None \<Rightarrow> first_match rs path)"

definition handle_get ::
  "env \<Rightarrow> ttl_cache option \<Rightarrow> clock \<Rightarrow> headers \<Rightarrow> string
     \<Rightarrow> proxy_result \<times> ttl_cache option \<times> (string \<times> headers) list" where
  "handle_get e cache clk req_headers path =
     (case first_match routes path of
        None \<Rightarrow> (HTTPException 404 ''Not Found'', cache, [])
      | Some (framework_page name, g) \<Rightarrow> (FrameworkPage name, cache, [])
      | Some (index, g) \<Rightarrow>
          (PlainTextResponse ''a high performance web proxy website based on python3'', cache, [])
      | Some (proxy_path, g) \<Rightarrow> do_proxy e cache clk req_headers (g ! 0) False
      | Some (raw_path, g) \<Rightarrow> do_proxy e cache clk req_headers (g ! 0) True)"

section \<open>Notions the properties are stated with\<close>

text \<open>The four spellings of the GitHub web host that the two patterns accept in lower case.\<close>

definition gh_prefixes :: "string list" where
  "gh_prefixes = [''https://github.com/'', ''http://github.com/'',
                  ''https://www.github.com/'', ''http://www.github.com/'']"

text \<open>The URL that a call fetches and caches under, once the scheme is accepted.\<close>

definition target_url :: "string \<Rightarrow> bool \<Rightarrow> string" where
  "target_url url convert_github =
     (let u = normalize_url_param url in if convert_github then github_to_raw u else u)"

text \<open>The length that the upstream response declares, when \<open>int\<close> accepts it.\<close>

definition declared_length :: "response \<Rightarrow> int option" where
  "declared_length resp =
     (case httpx_get (headers resp) ''content-length'' of Some v \<Rightarrow> py_int v | None \<Rightarrow> None)"



section \<open>Example surroundings\<close>

text \<open>
  The default settings, an upstream that always answers with a given response,
  an upstream that cannot be reached, and a clock that stands still during a call.
\<close>

definition example_cfg :: config where
  "example_cfg = \<lparr>GHPROXY_CACHE_TTL = 60, GHPROXY_CACHE_MAXSIZE = 256, GHPROXY_USER_AGENT = None\<rparr>"

definition answering :: "response \<Rightarrow> env" where
  "answering r = \<lparr>cfg = example_cfg, client_get = (\<lambda>u h. Returns r)\<rparr>"

definition failing :: "string \<Rightarrow> env" where
  "failing msg = \<lparr>cfg = example_cfg, client_get = (\<lambda>u h. RequestError msg)\<rparr>"



definition empty_cache :: ttl_cache where
  "empty_cache = \<lparr>maxsize = 256, ttl = 60, entries = []\<rparr>"

definition at_time :: "real \<Rightarrow> clock" where
  "at_time t = \<lparr>t_contains = t, t_getitem = t, t_setitem = t\<rparr>"

text \<open>
  A partial response to a ranged request, a response with an \<open>ETag\<close> line that
  has no value, the outbound headers of a request without \<open>Range\<close>, and a cache
  holding one entry.
\<close>

definition partial_response :: response where
  "partial_response =
     \<lparr>status_code = 206,
      headers = [(''Content-Length'', ''3''), (''Content-Range'', ''bytes 2-4/10'')],
      content = ''cde''\<rparr>"


definition default_agent :: headers where
  "default_agent = [(''user-agent'', ''Mozilla/5.0 (Windows NT 10.0; Win64; x64) ghproxy/1.0'')]"

definition cache_with :: "string \<Rightarrow> cache_value \<Rightarrow> real \<Rightarrow> ttl_cache" where
  "cache_with key v expires = \<lparr>maxsize = 256, ttl = 60, entries = [(key, v, expires)]\<rparr>"

section \<open>Properties of the pattern matcher\<close>


lemmas char_defs = lower_char_def ascii_upper_def ascii_lower_def

lemma rev_upt_from_1: "0 < n \<Longrightarrow> rev [Suc 0 ..< Suc n] = n # rev [Suc 0 ..< n]"
  by simp

lemma concat_map_none: "\<forall>y\<in>set ys. f y = [] \<Longrightarrow> concat (map f ys) = []"
  by (induction ys) auto

lemma takeWhile_all_then: "\<forall>c\<in>set a. P c \<Longrightarrow> \<not> P d \<Longrightarrow> takeWhile P (a @ d # t) = a"
  by (induction a) auto

lemma takeWhile_all: "\<forall>c\<in>set a. P c \<Longrightarrow> takeWhile P a = a"
  by (induction a) auto

text \<open>A group followed by a literal that starts with a character outside the class\<close>
lemma group_lit:
  assumes a: "a \<noteq> []" and P: "\<forall>c\<in>set a. P c" and d: "\<not> P d"
    and dd: "lower_char d = d" and nP: "\<forall>c. P c \<longrightarrow> lower_char c \<noteq> d"
  shows "m_seq ic (Group P (Suc 0) # Lit (d # p) # rs) (g, a @ d # t)
         = m_seq ic (Lit (d # p) # rs) (g @ [a], d # t)"
proof -
  let ?s = "a @ d # t"
  have tw: "takeWhile P ?s = a" using P d by (rule takeWhile_all_then)
  have len: "0 < length a" using a by simp
  have fail: "\<forall>n\<in>set (rev [Suc 0 ..< length a]).
     m_seq ic (Lit (d # p) # rs) (g @ [take n ?s], drop n ?s) = []"
  proof
    fix n assume "n \<in> set (rev [Suc 0 ..< length a])"
    then have n: "n < length a" by simp
    then obtain c cs where dr: "drop n a = c # cs" by (cases "drop n a") auto
    then have "c \<in> set a" by (metis in_set_dropD list.set_intros(1))
    then have Pc: "P c" using P by blast
    then have "c \<noteq> d" using d by auto
    moreover have "lower_char c \<noteq> lower_char d" using nP Pc dd by simp
    ultimately have "lit ic (d # p) (drop n ?s) = None" using dr n by auto
    then show "m_seq ic (Lit (d # p) # rs) (g @ [take n ?s], drop n ?s) = []" by simp
  qed
  have "m_item ic (Group P (Suc 0)) (g, ?s)
      = (g @ [a], d # t) # map (\<lambda>n. (g @ [take n ?s], drop n ?s)) (rev [Suc 0 ..< length a])"
    using len by (simp add: tw Suc_le_eq)
  then have "m_seq ic (Group P (Suc 0) # Lit (d # p) # rs) (g, ?s)
      = m_seq ic (Lit (d # p) # rs) (g @ [a], d # t)
        @ concat (map (\<lambda>n. m_seq ic (Lit (d # p) # rs) (g @ [take n ?s], drop n ?s)) (rev [Suc 0 ..< length a]))"
    by (simp add: comp_def)
  also have "concat (map (\<lambda>n. m_seq ic (Lit (d # p) # rs) (g @ [take n ?s], drop n ?s)) (rev [Suc 0 ..< length a])) = []"
    using fail by (intro concat_map_none) simp
  finally show ?thesis by simp
qed

lemma group_eos:
  assumes a: "a \<noteq> []" and P: "\<forall>c\<in>set a. P c" and nl: "\<not> P (CHR 0x0A)"
  shows "m_seq ic [Group P (Suc 0), Eos] (g, a) = [(g @ [a], [])]"
proof -
  have tw: "takeWhile P a = a" using P by (rule takeWhile_all)
  have len: "0 < length a" using a by simp
  have fail: "\<forall>n\<in>set (rev [Suc 0 ..< length a]).
     m_seq ic [Eos] (g @ [take n a], drop n a) = []"
  proof
    fix n assume "n \<in> set (rev [Suc 0 ..< length a])"
    then have n: "n < length a" by simp
    then obtain c cs where dr: "drop n a = c # cs" by (cases "drop n a") auto
    then have "c \<in> set a" by (metis in_set_dropD list.set_intros(1))
    then have "c \<noteq> CHR 0x0A" using P nl by auto
    then show "m_seq ic [Eos] (g @ [take n a], drop n a) = []" using dr by simp
  qed
  have "m_item ic (Group P (Suc 0)) (g, a)
      = (g @ [a], []) # map (\<lambda>n. (g @ [take n a], drop n a)) (rev [Suc 0 ..< length a])"
    using len by (simp add: tw Suc_le_eq)
  then have "m_seq ic [Group P (Suc 0), Eos] (g, a)
      = m_seq ic [Eos] (g @ [a], [])
        @ concat (map (\<lambda>n. m_seq ic [Eos] (g @ [take n a], drop n a)) (rev [Suc 0 ..< length a]))"
    by (simp add: comp_def)
  also have "concat (map (\<lambda>n. m_seq ic [Eos] (g @ [take n a], drop n a)) (rev [Suc 0 ..< length a])) = []"
    using fail by (intro concat_map_none) simp
  finally show ?thesis by simp
qed


lemma lower_char_slash: "lower_char c = CHR ''/'' \<longleftrightarrow> c = CHR ''/''"
  by (auto simp: char_defs split: option.splits if_splits)

lemma gh_prefix:
  "m_seq True (Lit ''http'' # Opt ''s'' # Lit ''://'' # Opt ''www.'' # Lit ''github.com/'' # rs)
      (g, ''https://github.com/'' @ t) = m_seq True rs (g, t)"
  "m_seq True (Lit ''http'' # Opt ''s'' # Lit ''://'' # Opt ''www.'' # Lit ''github.com/'' # rs)
      (g, ''http://github.com/'' @ t) = m_seq True rs (g, t)"
  "m_seq True (Lit ''http'' # Opt ''s'' # Lit ''://'' # Opt ''www.'' # Lit ''github.com/'' # rs)
      (g, ''https://www.github.com/'' @ t) = m_seq True rs (g, t)"
  "m_seq True (Lit ''http'' # Opt ''s'' # Lit ''://'' # Opt ''www.'' # Lit ''github.com/'' # rs)
      (g, ''http://www.github.com/'' @ t) = m_seq True rs (g, t)"
  by (simp_all add: char_defs)

lemma owner_repo:
  assumes "owner \<noteq> []" "CHR ''/'' \<notin> set owner" "repo \<noteq> []" "CHR ''/'' \<notin> set repo"
  shows "m_seq True (Group not_slash 1 # Lit ''/'' # Group not_slash 1 # Lit (CHR ''/'' # p) # rs)
           (g, owner @ ''/'' @ repo @ CHR ''/'' # t)
         = m_seq True (Lit (CHR ''/'' # p) # rs) (g @ [owner, repo], CHR ''/'' # t)"
proof -
  have o: "\<forall>c\<in>set owner. not_slash c" and r: "\<forall>c\<in>set repo. not_slash c"
    using assms by (auto simp: not_slash_def)
  have ns: "\<not> not_slash (CHR ''/'')" by (simp add: not_slash_def)
  have ls: "lower_char (CHR ''/'') = CHR ''/''" by (simp add: lower_char_slash)
  have np: "\<forall>c. not_slash c \<longrightarrow> lower_char c \<noteq> CHR ''/''"
    by (simp add: not_slash_def lower_char_slash)
  have "m_seq True (Group not_slash (Suc 0) # Lit ''/'' # Group not_slash 1 # Lit (CHR ''/'' # p) # rs)
           (g, owner @ CHR ''/'' # (repo @ CHR ''/'' # t))
        = m_seq True (Lit ''/'' # Group not_slash 1 # Lit (CHR ''/'' # p) # rs)
           (g @ [owner], CHR ''/'' # (repo @ CHR ''/'' # t))"
    using assms(1) o ns ls np by (rule group_lit)
  also have "\<dots> = m_seq True (Group not_slash (Suc 0) # Lit (CHR ''/'' # p) # rs)
           (g @ [owner], repo @ CHR ''/'' # t)"
    by (simp add: ls)
  also have "\<dots> = m_seq True (Lit (CHR ''/'' # p) # rs) ((g @ [owner]) @ [repo], CHR ''/'' # t)"
    using assms(3) r ns ls np by (rule group_lit)
  finally show ?thesis by simp
qed

lemma rest_eos:
  assumes "rest \<noteq> []" "CHR 0x0A \<notin> set rest"
  shows "m_seq True [Group dot 1, Eos] (g, rest) = [(g @ [rest], [])]"
proof -
  have "\<forall>c\<in>set rest. dot c" using assms by (auto simp: dot_def)
  moreover have "\<not> dot (CHR 0x0A)" by (simp add: dot_def)
  ultimately have "m_seq True [Group dot (Suc 0), Eos] (g, rest) = [(g @ [rest], [])]"
    using assms(1) by (intro group_eos)
  then show ?thesis by simp
qed

lemma blob_match:
  assumes "owner \<noteq> []" "CHR ''/'' \<notin> set owner" "repo \<noteq> []" "CHR ''/'' \<notin> set repo"
    "rest \<noteq> []" "CHR 0x0A \<notin> set rest" "pre \<in> set gh_prefixes"
  shows "re_match True gh_blob_regex (pre @ owner @ ''/'' @ repo @ ''/blob/'' @ rest)
           = Some [owner, repo, rest]"
proof -
  have 0: "m_seq True gh_blob_regex ([], pre @ X)
     = m_seq True [Group not_slash 1, Lit ''/'', Group not_slash 1, Lit ''/blob/'', Group dot 1, Eos]
         ([], X)" for X
    using assms(7) unfolding gh_blob_regex_def gh_prefixes_def
    by (auto simp add: gh_prefix simp del: append.simps m_seq.simps)
  have "m_seq True gh_blob_regex ([], pre @ owner @ ''/'' @ repo @ ''/blob/'' @ rest)
     = m_seq True [Group not_slash 1, Lit ''/'', Group not_slash 1, Lit ''/blob/'', Group dot 1, Eos]
         ([], owner @ ''/'' @ repo @ CHR ''/'' # ''blob/'' @ rest)"
    by (simp only: 0 append.simps)
  also have "\<dots> = m_seq True [Lit ''/blob/'', Group dot 1, Eos] ([] @ [owner, repo], CHR ''/'' # ''blob/'' @ rest)"
    using assms(1-4) by (rule owner_repo)
  also have "\<dots> = m_seq True [Group dot 1, Eos] ([owner, repo], rest)"
    by (simp add: char_defs)
  also have "\<dots> = [([owner, repo] @ [rest], [])]"
    using assms(5,6) by (rule rest_eos)
  finally show ?thesis by (simp add: re_match_def)
qed


lemma tree_match:
  assumes "owner \<noteq> []" "CHR ''/'' \<notin> set owner" "repo \<noteq> []" "CHR ''/'' \<notin> set repo"
    "rest \<noteq> []" "CHR 0x0A \<notin> set rest" "pre \<in> set gh_prefixes"
  shows "re_match True gh_tree_regex (pre @ owner @ ''/'' @ repo @ ''/raw/'' @ rest)
           = Some [owner, repo, rest]"
proof -
  have 0: "m_seq True gh_tree_regex ([], pre @ X)
     = m_seq True [Group not_slash 1, Lit ''/'', Group not_slash 1, Lit ''/raw/'', Group dot 1, Eos]
         ([], X)" for X
    using assms(7) unfolding gh_tree_regex_def gh_prefixes_def
    by (auto simp add: gh_prefix simp del: append.simps m_seq.simps)
  have "m_seq True gh_tree_regex ([], pre @ owner @ ''/'' @ repo @ ''/raw/'' @ rest)
     = m_seq True [Group not_slash 1, Lit ''/'', Group not_slash 1, Lit ''/raw/'', Group dot 1, Eos]
         ([], owner @ ''/'' @ repo @ CHR ''/'' # ''raw/'' @ rest)"
    by (simp only: 0 append.simps)
  also have "\<dots> = m_seq True [Lit ''/raw/'', Group dot 1, Eos] ([] @ [owner, repo], CHR ''/'' # ''raw/'' @ rest)"
    using assms(1-4) by (rule owner_repo)
  also have "\<dots> = m_seq True [Group dot 1, Eos] ([owner, repo], rest)"
    by (simp add: char_defs)
  also have "\<dots> = [([owner, repo] @ [rest], [])]"
    using assms(5,6) by (rule rest_eos)
  finally show ?thesis by (simp add: re_match_def)
qed

lemma blob_rejects_raw_form:
  assumes "owner \<noteq> []" "CHR ''/'' \<notin> set owner" "repo \<noteq> []" "CHR ''/'' \<notin> set repo"
    "pre \<in> set gh_prefixes"
  shows "re_match True gh_blob_regex (pre @ owner @ ''/'' @ repo @ ''/raw/'' @ rest) = None"
proof -
  have 0: "m_seq True gh_blob_regex ([], pre @ X)
     = m_seq True [Group not_slash 1, Lit ''/'', Group not_slash 1, Lit ''/blob/'', Group dot 1, Eos]
         ([], X)" for X
    using assms(5) unfolding gh_blob_regex_def gh_prefixes_def
    by (auto simp add: gh_prefix simp del: append.simps m_seq.simps)
  have "m_seq True gh_blob_regex ([], pre @ owner @ ''/'' @ repo @ ''/raw/'' @ rest)
     = m_seq True [Group not_slash 1, Lit ''/'', Group not_slash 1, Lit ''/blob/'', Group dot 1, Eos]
         ([], owner @ ''/'' @ repo @ CHR ''/'' # ''raw/'' @ rest)"
    by (simp only: 0 append.simps)
  also have "\<dots> = m_seq True [Lit ''/blob/'', Group dot 1, Eos] ([] @ [owner, repo], CHR ''/'' # ''raw/'' @ rest)"
    using assms(1-4) by (rule owner_repo)
  also have "\<dots> = []"
    by (simp add: char_defs)
  finally show ?thesis by (simp add: re_match_def)
qed

lemma raw_host_no_match:
  "re_match True gh_blob_regex (''https://raw.githubusercontent.com'' @ t) = None"
  "re_match True gh_tree_regex (''https://raw.githubusercontent.com'' @ t) = None"
  "re_match True gh_blob_regex (''http://raw.githubusercontent.com'' @ t) = None"
  "re_match True gh_tree_regex (''http://raw.githubusercontent.com'' @ t) = None"
  by (simp_all add: re_match_def gh_blob_regex_def gh_tree_regex_def char_defs)

lemma raw_url_no_match:
  "re_match True gh_blob_regex (raw_url g) = None"
  "re_match True gh_tree_regex (raw_url g) = None"
  using raw_host_no_match(1,2)[of "''/'' @ g ! 0 @ ''/'' @ g ! 1 @ ''/'' @ g ! 2"]
  by (simp_all add: raw_url_def)

lemma github_to_raw_idem: "github_to_raw (github_to_raw u) = github_to_raw u"
  by (simp add: github_to_raw_def raw_url_no_match split: option.splits)


section \<open>The GitHub link rewriter\<close>

text \<open>
  C6: for every URL made of one of the four GitHub prefixes, an owner and a
  repository segment (non-empty, without a slash), the segment \<open>blob\<close> and a rest
  (non-empty, on one line), \<open>github_to_raw\<close> returns the raw-host URL with the same
  owner, repository and rest; the same holds with the segment \<open>raw\<close>.  The blob
  pattern is tried first: when it matches, its groups give the result.  A URL that
  neither pattern matches is returned unchanged.
\<close>

theorem github_to_raw_forms:
  assumes "owner \<noteq> []" "CHR ''/'' \<notin> set owner" "repo \<noteq> []" "CHR ''/'' \<notin> set repo"
    "rest \<noteq> []" "CHR 0x0A \<notin> set rest" "pre \<in> set gh_prefixes"
  shows "github_to_raw (pre @ owner @ ''/'' @ repo @ ''/blob/'' @ rest)
           = ''https://raw.githubusercontent.com/'' @ owner @ ''/'' @ repo @ ''/'' @ rest
       \<and> github_to_raw (pre @ owner @ ''/'' @ repo @ ''/raw/'' @ rest)
           = ''https://raw.githubusercontent.com/'' @ owner @ ''/'' @ repo @ ''/'' @ rest
       \<and> (re_match True gh_blob_regex u = Some g \<longrightarrow> github_to_raw u = raw_url g)
       \<and> (re_match True gh_blob_regex u = None \<and> re_match True gh_tree_regex u = None
            \<longrightarrow> github_to_raw u = u)"
proof -
  have "github_to_raw (pre @ owner @ ''/'' @ repo @ ''/blob/'' @ rest)
           = ''https://raw.githubusercontent.com/'' @ owner @ ''/'' @ repo @ ''/'' @ rest"
    using blob_match[OF assms] by (simp add: github_to_raw_def raw_url_def)
  moreover have "github_to_raw (pre @ owner @ ''/'' @ repo @ ''/raw/'' @ rest)
           = ''https://raw.githubusercontent.com/'' @ owner @ ''/'' @ repo @ ''/'' @ rest"
    using tree_match[OF assms] blob_rejects_raw_form[OF assms(1-4) assms(7), of rest]
    by (simp add: github_to_raw_def raw_url_def)
  moreover have "re_match True gh_blob_regex u = Some g \<longrightarrow> github_to_raw u = raw_url g"
    by (simp add: github_to_raw_def)
  moreover have "re_match True gh_blob_regex u = None \<and> re_match True gh_tree_regex u = None
            \<longrightarrow> github_to_raw u = u"
    by (simp add: github_to_raw_def)
  ultimately show ?thesis by blast
qed

theorem github_to_raw_forms_witness:
  "github_to_raw ''https://github.com/python/cpython/blob/main/README.rst''
     = ''https://raw.githubusercontent.com/python/cpython/main/README.rst''
   \<and> github_to_raw ''https://github.com/python/cpython/raw/main/README.rst''
     = ''https://raw.githubusercontent.com/python/cpython/main/README.rst''
   \<and> re_match True gh_blob_regex ''http://www.github.com/o/r/blob/raw/f'' = Some [''o'', ''r'', ''raw/f'']
   \<and> github_to_raw ''http://www.github.com/o/r/blob/raw/f'' = ''https://raw.githubusercontent.com/o/r/raw/f''
   \<and> re_match True gh_blob_regex ''https://example.com/a/b/blob/c'' = None
   \<and> re_match True gh_tree_regex ''https://example.com/a/b/blob/c'' = None
   \<and> github_to_raw ''https://example.com/a/b/blob/c'' = ''https://example.com/a/b/blob/c''"
proof -
  have b: "re_match True gh_blob_regex ''http://www.github.com/o/r/blob/raw/f'' = Some [''o'', ''r'', ''raw/f'']"
    by (simp add: re_match_def gh_blob_regex_def not_slash_def dot_def char_defs)
  have n: "re_match True gh_blob_regex ''https://example.com/a/b/blob/c'' = None
         \<and> re_match True gh_tree_regex ''https://example.com/a/b/blob/c'' = None"
    by (simp add: re_match_def gh_blob_regex_def gh_tree_regex_def char_defs)
  have p: "''https://github.com/'' \<in> set gh_prefixes" by (simp add: gh_prefixes_def)
  have 1: "github_to_raw ''https://github.com/python/cpython/blob/main/README.rst''
             = ''https://raw.githubusercontent.com/python/cpython/main/README.rst''
         \<and> github_to_raw ''https://github.com/python/cpython/raw/main/README.rst''
             = ''https://raw.githubusercontent.com/python/cpython/main/README.rst''"
    using github_to_raw_forms [of "''python''" "''cpython''" "''main/README.rst''" "''https://github.com/''", OF _ _ _ _ _ _ p]
    by simp
  have 2: "github_to_raw ''http://www.github.com/o/r/blob/raw/f'' = raw_url [''o'', ''r'', ''raw/f'']"
    using github_to_raw_forms [of "''python''" "''cpython''" "''main/README.rst''" "''https://github.com/''"
        "''http://www.github.com/o/r/blob/raw/f''" "[''o'', ''r'', ''raw/f'']", OF _ _ _ _ _ _ p] b
    by simp
  have 3: "github_to_raw ''https://example.com/a/b/blob/c'' = ''https://example.com/a/b/blob/c''"
    using github_to_raw_forms [of "''python''" "''cpython''" "''main/README.rst''" "''https://github.com/''"
        "''https://example.com/a/b/blob/c''", OF _ _ _ _ _ _ p] n
    by simp
  show ?thesis using 1 2 3 b n by (simp add: raw_url_def)
qed

text \<open>
  C8: \<open>github_to_raw\<close> is idempotent on every URL, and a URL that starts with the
  raw-content host (under either scheme) is returned unchanged.
\<close>

theorem github_to_raw_idempotent:
  "github_to_raw (github_to_raw u) = github_to_raw u
   \<and> github_to_raw (''https://raw.githubusercontent.com'' @ t) = ''https://raw.githubusercontent.com'' @ t
   \<and> github_to_raw (''http://raw.githubusercontent.com'' @ t) = ''http://raw.githubusercontent.com'' @ t"
proof -
  have "github_to_raw (github_to_raw u) = github_to_raw u"
    by (rule github_to_raw_idem)
  moreover have "github_to_raw (''https://raw.githubusercontent.com'' @ t) = ''https://raw.githubusercontent.com'' @ t"
    unfolding github_to_raw_def by (simp only: raw_host_no_match option.case)
  moreover have "github_to_raw (''http://raw.githubusercontent.com'' @ t) = ''http://raw.githubusercontent.com'' @ t"
    unfolding github_to_raw_def by (simp only: raw_host_no_match option.case)
  ultimately show ?thesis by blast
qed

section \<open>The cache and the proxy\<close>


lemma map_of_filter_neq: "map_of (filter (\<lambda>e. fst e \<noteq> k) es) k = None"
  by (induction es) auto

lemma map_of_replaced: "map_of (filter (\<lambda>e. fst e \<noteq> k) es @ [(k, x)]) k = Some x"
  by (simp add: map_of_filter_neq map_add_def)

lemma map_of_move_to_end: "map_of (move_to_end k es) k = map_of es k"
  by (auto simp: move_to_end_def map_of_filter_neq map_add_def split: option.splits)


lemma cache_contains_entry:
  "map_of (entries c) key = Some (v, expires) \<Longrightarrow> cache_contains c now key = (now < expires)"
  by (simp add: cache_contains_def)

lemma cache_getitem_entry:
  "map_of (entries c) key = Some (v, expires) \<Longrightarrow> now < expires \<Longrightarrow>
     cache_getitem c now key = (Inr v, c\<lparr>entries := move_to_end key (entries c)\<rparr>)"
  by (simp add: cache_getitem_def)

lemma do_proxy_rejected:
  "allowed_scheme (normalize_url_param url) = Inr False \<Longrightarrow>
     do_proxy e cache clk h url conv = (HTTPException 400 ''Only http/https supported'', cache, [])"
  by (simp add: do_proxy_def)

lemma do_proxy_hit:
  assumes "allowed_scheme (normalize_url_param url) = Inr True"
    and "map_of (entries c) (''proxy:'' @ target_url url conv) = Some ((body, hdrs, status), expires)"
    and "t_contains clk < expires" "t_getitem clk < expires"
  shows "do_proxy e (Some c) clk h url conv
           = (Response body status hdrs,
              Some (c\<lparr>entries := move_to_end (''proxy:'' @ target_url url conv) (entries c)\<rparr>), [])"
  using assms
  by (simp add: do_proxy_def target_url_def Let_def cache_contains_def cache_getitem_def)

lemma do_proxy_miss:
  assumes "allowed_scheme (normalize_url_param url) = Inr True"
    and "case cache of None \<Rightarrow> True
         | Some c \<Rightarrow> \<not> cache_contains c (t_contains clk) (''proxy:'' @ target_url url conv)"
  shows "do_proxy e cache clk h url conv = fetch_and_deliver e cache clk h (target_url url conv)"
  using assms
  by (cases conv; cases cache) (simp_all add: do_proxy_def target_url_def Let_def)

lemma strip_Nil: "strip [] = []"
  by (simp add: strip_def)

lemma py_int_Nil: "py_int [] = None"
  by (simp add: py_int_def strip_def)

lemma content_length_Some: "content_length (Some c) resp = declared_length resp"
  by (auto simp: content_length_def declared_length_def py_int_Nil split: option.splits)




lemma fetch_failed:
  assumes "client_get e u (out_headers (cfg e) h) = RequestError msg"
  shows "fetch_and_deliver e cache clk h u
           = (HTTPException 502 (''Upstream request failed: '' @ msg), cache,
              [(u, out_headers (cfg e) h)])"
  using assms by (simp add: fetch_and_deliver_def Let_def)





text \<open>
  C7: when the upstream request of a call fails with a request error, the call
  ends with status 502 and the message \<open>Upstream request failed: \<close> followed by
  the text of the error, and the cache is the one the call started with.
\<close>

theorem upstream_failure_502:
  assumes "allowed_scheme (normalize_url_param url) = Inr True"
    and "case cache of None \<Rightarrow> True
         | Some c \<Rightarrow> \<not> cache_contains c (t_contains clk) (''proxy:'' @ target_url url conv)"
    and "client_get e (target_url url conv) (out_headers (cfg e) h) = RequestError msg"
  shows "do_proxy e cache clk h url conv
           = (HTTPException 502 (''Upstream request failed: '' @ msg), cache,
              [(target_url url conv, out_headers (cfg e) h)])"
  using do_proxy_miss[OF assms(1,2)] fetch_failed[OF assms(3)] by simp





text \<open>
  C9: the cache key is \<open>proxy:\<close> followed by the target URL.  When an unexpired
  entry exists under it, two calls for that URL receive the cached body, status
  and headers whatever their request headers are, be they handled from the same
  cache state or one after the other, and neither makes an outbound request.
\<close>

theorem range_ignored_on_hit:
  assumes a: "allowed_scheme (normalize_url_param url) = Inr True"
    and entry: "map_of (entries c) (''proxy:'' @ target_url url conv)
                  = Some ((body, hdrs, status), expires)"
    and t1: "t_contains clk1 < expires" "t_getitem clk1 < expires"
    and t2: "t_contains clk2 < expires" "t_getitem clk2 < expires"
  shows "\<exists>c1 c2.
           do_proxy e1 (Some c) clk1 h1 url conv = (Response body status hdrs, Some c1, [])
         \<and> do_proxy e2 (Some c) clk1 h2 url conv = (Response body status hdrs, Some c1, [])
         \<and> do_proxy e2 (Some c1) clk2 h2 url conv = (Response body status hdrs, Some c2, [])"
proof -
  let ?k = "''proxy:'' @ target_url url conv"
  let ?c1 = "c\<lparr>entries := move_to_end ?k (entries c)\<rparr>"
  have 1: "do_proxy e1 (Some c) clk1 h1 url conv = (Response body status hdrs, Some ?c1, [])"
    using a entry t1 by (rule do_proxy_hit)
  have 2: "do_proxy e2 (Some c) clk1 h2 url conv = (Response body status hdrs, Some ?c1, [])"
    using a entry t1 by (rule do_proxy_hit)
  have "map_of (entries ?c1) ?k = Some ((body, hdrs, status), expires)"
    using entry by (simp add: map_of_move_to_end)
  from do_proxy_hit[OF a this t2]
  have 3: "\<exists>c2. do_proxy e2 (Some ?c1) clk2 h2 url conv = (Response body status hdrs, Some c2, [])"
    by blast
  show ?thesis using 1 2 3 by blast
qed





section \<open>The properties on the example surroundings\<close>


lemmas url_defs = normalize_url_param_def strip_def py_isspace_def allowed_scheme_def
  urlparse_scheme_def split_scheme_def c0_control_or_space_def unsafe_url_bytes_def
  scheme_chars_def ascii_lower_def ascii_upper_def digits_def netloc_of_def lower_def lower_char_def

lemma ex_normalize: "normalize_url_param ''https://example.com/a'' = ''https://example.com/a''"
  by (simp add: normalize_url_param_def strip_def py_isspace_def)

lemma ex_allowed: "allowed_scheme (normalize_url_param ''https://example.com/a'') = Inr True"
  by (simp add: url_defs)

lemma ex_target: "target_url ''https://example.com/a'' False = ''https://example.com/a''"
  by (simp add: target_url_def ex_normalize)


lemma ex_user_agent:
  "out_headers example_cfg [] = [(''user-agent'', ''Mozilla/5.0 (Windows NT 10.0; Win64; x64) ghproxy/1.0'')]"
  by (simp add: out_headers_def request_header_def user_agent_def example_cfg_def)




lemma ex_empty_miss: "\<not> cache_contains empty_cache t k"
  by (simp add: cache_contains_def empty_cache_def)


theorem upstream_failure_502_witness:
  "allowed_scheme (normalize_url_param ''https://example.com/a'') = Inr True
   \<and> \<not> cache_contains empty_cache (t_contains (at_time 0)) (''proxy:'' @ target_url ''https://example.com/a'' False)
   \<and> client_get (failing ''connection refused'') ''https://example.com/a'' [] = RequestError ''connection refused''
   \<and> do_proxy (failing ''connection refused'') (Some empty_cache) (at_time 0) [] ''https://example.com/a'' False
       = (HTTPException 502 ''Upstream request failed: connection refused'', Some empty_cache,
          [(''https://example.com/a'',
            [(''user-agent'', ''Mozilla/5.0 (Windows NT 10.0; Win64; x64) ghproxy/1.0'')])])"
proof -
  have m: "case Some empty_cache of None \<Rightarrow> True
         | Some c \<Rightarrow> \<not> cache_contains c (t_contains (at_time 0)) (''proxy:'' @ target_url ''https://example.com/a'' False)"
    by (simp add: ex_empty_miss)
  have f: "client_get (failing ''connection refused'') (target_url ''https://example.com/a'' False)
             (out_headers (cfg (failing ''connection refused'')) []) = RequestError ''connection refused''"
    by (simp add: failing_def)
  show ?thesis
    using upstream_failure_502 [OF ex_allowed m f] ex_allowed ex_empty_miss
    by (simp add: ex_target failing_def ex_user_agent)
qed


section \<open>The routes\<close>

lemma lit_cased: "\<not> ic \<Longrightarrow> lit ic p s = Some r \<longleftrightarrow> s = p @ r"
  by (induction ic p s rule: lit.induct) auto

lemma m_seq_Lit:
  "m_seq ic (Lit p # rs) (g, s) = (case lit ic p s of Some r \<Rightarrow> m_seq ic rs (g, r) | None \<Rightarrow> [])"
  by (simp split: option.splits)

lemma group_eos_matches:
  "m_seq ic [Group P k, Eos] (g, s) \<noteq> []
     \<longleftrightarrow> (\<exists>n. k \<le> n \<and> n \<le> length (takeWhile P s) \<and> (drop n s = [] \<or> drop n s = [CHR 0x0A]))"
  by (auto simp: less_Suc_eq_le)

lemma takeWhile_dot_raw: "length (takeWhile dot (''raw/'' @ r)) = 4 + length (takeWhile dot r)"
  by (simp add: dot_def)

lemma raw_implies_proxy:
  assumes "re_match False [Lit ''/raw/'', Group dot 0, Eos] path = Some g"
  shows "re_match False [Lit ''/'', Group dot 0, Eos] path \<noteq> None"
proof -
  have ne: "m_seq False [Lit ''/raw/'', Group dot 0, Eos] ([], path) \<noteq> []"
    using assms by (auto simp: re_match_def simp del: m_seq.simps split: list.splits)
  then have "\<exists>r. lit False ''/raw/'' path = Some r \<and> m_seq False [Group dot 0, Eos] ([], r) \<noteq> []"
    unfolding m_seq_Lit by (cases "lit False ''/raw/'' path") (simp_all del: m_seq.simps)
  then obtain r where l: "lit False ''/raw/'' path = Some r"
    and m: "m_seq False [Group dot 0, Eos] ([], r) \<noteq> []"
    by blast
  have p: "path = ''/raw/'' @ r" using l by (simp add: lit_cased)
  from m obtain n where n: "n \<le> length (takeWhile dot r)" "drop n r = [] \<or> drop n r = [CHR 0x0A]"
    unfolding group_eos_matches by blast
  have d: "drop (4 + n) (''raw/'' @ r) = drop n r"
    by (simp add: numeral_eq_Suc)
  have "4 + n \<le> length (takeWhile dot (''raw/'' @ r))"
    using n(1) unfolding takeWhile_dot_raw by simp
  then have "0 \<le> 4 + n \<and> 4 + n \<le> length (takeWhile dot (''raw/'' @ r))
        \<and> (drop (4 + n) (''raw/'' @ r) = [] \<or> drop (4 + n) (''raw/'' @ r) = [CHR 0x0A])"
    using n(2) unfolding d by simp
  then have "m_seq False [Group dot 0, Eos] ([], ''raw/'' @ r) \<noteq> []"
    unfolding group_eos_matches by blast
  moreover have "m_seq False [Lit ''/'', Group dot 0, Eos] ([], path)
                   = m_seq False [Group dot 0, Eos] ([], ''raw/'' @ r)"
    unfolding m_seq_Lit p by (simp del: m_seq.simps)
  ultimately show ?thesis by (auto simp: re_match_def simp del: m_seq.simps split: list.splits)
qed

lemma raw_path_unreachable: "first_match routes path \<noteq> Some (raw_path, g)"
proof
  assume a: "first_match routes path = Some (raw_path, g)"
  then have "re_match False [Lit ''/'', Group dot 0, Eos] path = None"
    by (auto simp: routes_def split: option.splits)
  moreover from a have "re_match False [Lit ''/raw/'', Group dot 0, Eos] path = Some g"
    by (auto simp: routes_def split: option.splits)
  ultimately show False using raw_implies_proxy by blast
qed

text \<open>
  C1: no path is ever handed to \<open>raw_path\<close>, the handler that rewrites GitHub
  links: every path that the pattern \<open>/raw/{url:path}\<close> matches is matched by
  \<open>/{url:path}\<close>, which is registered before it.  The example of the module's
  documentation, \<open>/raw/https://github.com/python/cpython/blob/main/README.rst\<close>,
  goes to \<open>proxy_path\<close> with the URL \<open>raw/https://...\<close>, which has no scheme,
  and ends with status 400 without rewriting, cache access or outbound request.
\<close>

theorem raw_route_shadowed:
  "first_match routes path \<noteq> Some (raw_path, g)
   \<and> first_match routes ''/raw/https://github.com/python/cpython/blob/main/README.rst''
       = Some (proxy_path, [''raw/https://github.com/python/cpython/blob/main/README.rst''])
   \<and> handle_get e cache clk h ''/raw/https://github.com/python/cpython/blob/main/README.rst''
       = (HTTPException 400 ''Only http/https supported'', cache, [])"
proof -
  have 1: "first_match routes ''/raw/https://github.com/python/cpython/blob/main/README.rst''
       = Some (proxy_path, [''raw/https://github.com/python/cpython/blob/main/README.rst''])"
    by (simp add: routes_def re_match_def dot_def)
  have "allowed_scheme (normalize_url_param ''raw/https://github.com/python/cpython/blob/main/README.rst'')
          = Inr False"
    by (simp add: url_defs)
  then have "do_proxy e cache clk h ''raw/https://github.com/python/cpython/blob/main/README.rst'' False
          = (HTTPException 400 ''Only http/https supported'', cache, [])"
    by (rule do_proxy_rejected)
  then have 2: "handle_get e cache clk h ''/raw/https://github.com/python/cpython/blob/main/README.rst''
       = (HTTPException 400 ''Only http/https supported'', cache, [])"
    unfolding handle_get_def 1 by simp
  show ?thesis using raw_path_unreachable 1 2 by blast
qed


section \<open>Further example runs\<close>


lemmas hdr_defs = httpx_get_def lower_def lower_char_def ascii_upper_def ascii_lower_def
lemmas int_defs = py_int_def strip_def py_isspace_def digit_val_def digits_def max_str_digits_def

lemma ex_partial_length: "declared_length partial_response = Some 3"
  by (simp add: declared_length_def partial_response_def hdr_defs int_defs)

lemma ex_partial_picked: "pick_response_headers partial_response = [(''content-length'', ''3'')]"
  by (simp add: pick_response_headers_def whitelist_def partial_response_def hdr_defs)






lemma ex_range_headers:
  "out_headers example_cfg [(''range'', ''bytes=2-4'')] = (''range'', ''bytes=2-4'') # default_agent"
  by (simp add: out_headers_def request_header_def user_agent_def example_cfg_def default_agent_def
      lower_def lower_char_def ascii_upper_def ascii_lower_def)







lemma ex_entry: "map_of (entries (cache_with k v expires)) k = Some (v, expires)"
  by (simp add: cache_with_def)

lemma ex_store_partial:
  "fetch_and_deliver (answering partial_response) (Some empty_cache) (at_time 0)
       [(''range'', ''bytes=2-4'')] u
     = (Response ''cde'' 206 [(''content-length'', ''3'')],
        Some (cache_with (''proxy:'' @ u) (''cde'', [(''content-length'', ''3'')], 206) 60),
        [(u, (''range'', ''bytes=2-4'') # default_agent)])"
proof -
  have a: "client_get (answering partial_response) u hs = Returns partial_response" for hs
    by (simp add: answering_def)
  have b: "status_code partial_response = 206" "content partial_response = ''cde''"
    by (simp_all add: partial_response_def)
  have c: "cfg (answering partial_response) = example_cfg" by (simp add: answering_def)
  have d: "cache_setitem empty_cache 0 k v = (None, cache_with k v 60)" for k v
    by (simp add: cache_setitem_def expire_def empty_cache_def cache_with_def)
  have t: "t_setitem (at_time 0) = 0" by (simp add: at_time_def)
  show ?thesis
    by (simp add: fetch_and_deliver_def Let_def a b c d t content_length_Some ex_partial_length
        ex_partial_picked ex_range_headers)
qed

theorem range_ignored_on_hit_witness:
  "do_proxy (answering partial_response) (Some empty_cache) (at_time 0) [(''range'', ''bytes=2-4'')]
      ''https://example.com/a'' False
     = (Response ''cde'' 206 [(''content-length'', ''3'')],
        Some (cache_with ''proxy:https://example.com/a'' (''cde'', [(''content-length'', ''3'')], 206) 60),
        [(''https://example.com/a'', (''range'', ''bytes=2-4'') # default_agent)])
   \<and> (\<exists>c1 c2.
         do_proxy (failing ''unreachable'')
            (Some (cache_with ''proxy:https://example.com/a'' (''cde'', [(''content-length'', ''3'')], 206) 60))
            (at_time 10) [] ''https://example.com/a'' False
           = (Response ''cde'' 206 [(''content-length'', ''3'')], Some c1, [])
       \<and> do_proxy (failing ''unreachable'')
            (Some (cache_with ''proxy:https://example.com/a'' (''cde'', [(''content-length'', ''3'')], 206) 60))
            (at_time 10) [(''range'', ''bytes=0-0'')] ''https://example.com/a'' False
           = (Response ''cde'' 206 [(''content-length'', ''3'')], Some c1, [])
       \<and> do_proxy (failing ''unreachable'') (Some c1) (at_time 20) [(''range'', ''bytes=0-0'')]
            ''https://example.com/a'' False
           = (Response ''cde'' 206 [(''content-length'', ''3'')], Some c2, []))"
proof -
  let ?c = "cache_with ''proxy:https://example.com/a'' (''cde'', [(''content-length'', ''3'')], 206) 60"
  have m: "case Some empty_cache of None \<Rightarrow> True
         | Some c \<Rightarrow> \<not> cache_contains c (t_contains (at_time 0))
                          (''proxy:'' @ target_url ''https://example.com/a'' False)"
    by (simp add: ex_empty_miss)
  have first: "do_proxy (answering partial_response) (Some empty_cache) (at_time 0)
      [(''range'', ''bytes=2-4'')] ''https://example.com/a'' False
     = (Response ''cde'' 206 [(''content-length'', ''3'')], Some ?c,
        [(''https://example.com/a'', (''range'', ''bytes=2-4'') # default_agent)])"
    unfolding do_proxy_miss [OF ex_allowed m] ex_target ex_store_partial by simp
  have entry: "map_of (entries ?c) (''proxy:'' @ target_url ''https://example.com/a'' False)
                 = Some ((''cde'', [(''content-length'', ''3'')], 206), 60)"
    unfolding ex_target by (simp add: cache_with_def)
  have t: "t_contains (at_time 10) < 60" "t_getitem (at_time 10) < 60"
          "t_contains (at_time 20) < 60" "t_getitem (at_time 20) < 60"
    by (simp_all add: at_time_def)
  show ?thesis
    using first
      range_ignored_on_hit [OF ex_allowed entry t, of "failing ''unreachable''" "[]"
        "failing ''unreachable''" "[(''range'', ''bytes=0-0'')]"]
    by (intro conjI)
qed



end
